theory Spec2Isabelle
  imports Complex_Main
begin

section \<open>Python values: errors, checked division, dictionaries\<close>

text \<open>
  The metrics are Python functions over dictionaries delivered as JSON. An exception is a
  value \<open>Inl e\<close> of the result; floats are idealised as reals, pixel counts are naturals.
\<close>

datatype error = ZeroDivisionError | KeyError | ValueError

definition bind_err :: "error + 'a \<Rightarrow> ('a \<Rightarrow> error + 'b) \<Rightarrow> error + 'b" where
  "bind_err m f = (case m of Inl e \<Rightarrow> Inl e | Inr x \<Rightarrow> f x)"

fun map_err :: "('a \<Rightarrow> error + 'b) \<Rightarrow> 'a list \<Rightarrow> error + 'b list" where
  "map_err f [] = Inr []"
| "map_err f (x # xs) =
     bind_err (f x) (\<lambda>y. bind_err (map_err f xs) (\<lambda>ys. Inr (y # ys)))"

definition py_div :: "real \<Rightarrow> real \<Rightarrow> error + real" where
  "py_div a b = (if b = 0 then Inl ZeroDivisionError else Inr (a / b))"

text \<open>
  A dictionary key is a string (\<open>"10"\<close>, as JSON delivers it) or an integer; the two never
  compare equal in Python. A dictionary is an association list in insertion order whose
  keys are distinct.
\<close>

datatype key = StrKey string | IntKey int

type_synonym histogram = "(key \<times> nat) list"

definition dict_ok :: "histogram \<Rightarrow> bool" where
  "dict_ok counts = distinct (map fst counts)"

definition dict_values :: "histogram \<Rightarrow> nat list" where
  "dict_values counts = map snd counts"

definition dict_get :: "histogram \<Rightarrow> key \<Rightarrow> nat \<Rightarrow> nat" where
  "dict_get counts k d = (case map_of counts k of None \<Rightarrow> d | Some v \<Rightarrow> v)"

definition total_count :: "histogram \<Rightarrow> nat" where
  "total_count counts = sum_list (dict_values counts)"

subsection \<open>\<open>str\<close> of an integer and \<open>int\<close> of a key\<close>

definition digit_char :: "nat \<Rightarrow> char" where
  "digit_char d = ''0123456789'' ! d"

fun digits :: "nat \<Rightarrow> string" where
  "digits n = (if n < 10 then [digit_char n] else digits (n div 10) @ [digit_char (n mod 10)])"

declare digits.simps [simp del]

definition py_str :: "int \<Rightarrow> string" where
  "py_str i = (if i < 0 then CHR ''-'' # digits (nat (- i)) else digits (nat i))"

definition is_space :: "char \<Rightarrow> bool" where
  "is_space c = (c \<in> {CHR '' '', CHR 0x09, CHR 0x0A, CHR 0x0B, CHR 0x0C, CHR 0x0D,
                        CHR 0x1C, CHR 0x1D, CHR 0x1E, CHR 0x1F})"

definition is_digit :: "char \<Rightarrow> bool" where
  "is_digit c = (c \<in> set ''0123456789'')"

definition digit_val :: "char \<Rightarrow> nat" where
  "digit_val c = of_char c - 48"

definition strip :: "string \<Rightarrow> string" where
  "strip s = rev (dropWhile is_space (rev (dropWhile is_space s)))"

text \<open>
  Decimal digits, with single underscores allowed between digits; the flag says that the
  previous character was a digit.
\<close>

fun parse_digits :: "nat \<Rightarrow> bool \<Rightarrow> string \<Rightarrow> nat option" where
  "parse_digits acc prev [] = (if prev then Some acc else None)"
| "parse_digits acc prev (c # cs) =
     (if is_digit c then parse_digits (10 * acc + digit_val c) True cs
      else if c = CHR ''_'' \<and> prev then parse_digits acc False cs
      else None)"

definition parse_int :: "string \<Rightarrow> error + int" where
  "parse_int s =
     (case strip s of
        [] \<Rightarrow> Inl ValueError
      | c # cs \<Rightarrow>
          if c = CHR ''-'' then
            (case parse_digits 0 False cs of None \<Rightarrow> Inl ValueError | Some n \<Rightarrow> Inr (- int n))
          else if c = CHR ''+'' then
            (case parse_digits 0 False cs of None \<Rightarrow> Inl ValueError | Some n \<Rightarrow> Inr (int n))
          else
            (case parse_digits 0 False (c # cs) of None \<Rightarrow> Inl ValueError | Some n \<Rightarrow> Inr (int n)))"

fun py_int :: "key \<Rightarrow> error + int" where
  "py_int (IntKey i) = Inr i"
| "py_int (StrKey s) = parse_int s"

section \<open>Land-cover metrics (metrics/landcover\_metrics.py)\<close>

definition landcover_classes :: "(int \<times> string) list" where
  "landcover_classes =
     [(10, ''Tree cover''), (20, ''Shrubland''), (30, ''Grassland''), (40, ''Cropland''),
      (50, ''Built-up''), (60, ''Sparse vegetation''), (70, ''Snow and ice''),
      (80, ''Permanent water''), (90, ''Herbaceous wetland''), (95, ''Mangroves''),
      (100, ''Moss and lichen'')]"

text \<open>\<open>proportions = [count / total for count in counts.values()]\<close>\<close>

definition proportions :: "histogram \<Rightarrow> error + real list" where
  "proportions counts =
     (let total = total_count counts
      in map_err (\<lambda>count. py_div (real count) (real total)) (dict_values counts))"

definition get_shannon_index :: "histogram \<Rightarrow> error + real" where
  "get_shannon_index counts =
     bind_err (proportions counts)
       (\<lambda>ps. Inr (- sum_list (map (\<lambda>p. p * ln p) (filter (\<lambda>p. p > 0) ps))))"

definition get_simpson_index :: "histogram \<Rightarrow> error + real" where
  "get_simpson_index counts =
     bind_err (proportions counts) (\<lambda>ps. Inr (1 - sum_list (map (\<lambda>p. p ^ 2) ps)))"

definition get_evenness_index :: "histogram \<Rightarrow> error + real" where
  "get_evenness_index counts =
     (let number_of_classes = length counts
      in bind_err (get_shannon_index counts)
           (\<lambda>shannon. if number_of_classes > 1
                       then Inr (shannon / ln (real number_of_classes))
                       else Inr 0))"

definition natural_classes :: "int list" where
  "natural_classes = [10, 20, 30, 90, 95, 100]"

definition anthropogenic_classes :: "int list" where
  "anthropogenic_classes = [40, 50, 60, 70, 80]"

definition class_count :: "histogram \<Rightarrow> int list \<Rightarrow> nat" where
  "class_count counts classes =
     sum_list (map (\<lambda>cls. dict_get counts (StrKey (py_str cls)) 0) classes)"

definition get_natural_habitat_fraction :: "histogram \<Rightarrow> real" where
  "get_natural_habitat_fraction counts =
     (let natural_count = class_count counts natural_classes;
          total = total_count counts
      in if total > 0 then real natural_count / real total else 0)"

definition get_anthropogenic_habitat_fraction :: "histogram \<Rightarrow> real" where
  "get_anthropogenic_habitat_fraction counts =
     (let anthro_count = class_count counts anthropogenic_classes;
          total = total_count counts
      in if total > 0 then real anthro_count / real total else 0)"

text \<open>
  The keys under which the two habitat fractions look classes up, and the number of
  classes of a histogram that have at least one pixel.
\<close>

definition habitat_keys :: "key list" where
  "habitat_keys = map (\<lambda>cls. StrKey (py_str cls)) (natural_classes @ anthropogenic_classes)"

definition present_classes :: "histogram \<Rightarrow> nat" where
  "present_classes counts = length (filter (\<lambda>(cls, count). 0 < count) counts)"

fun is_str :: "key \<Rightarrow> bool" where
  "is_str (StrKey s) = True"
| "is_str (IntKey i) = False"

text \<open>
  \<open>sorted(counts.items(), key=lambda x: x[1], reverse=True)[:5]\<close>: a stable sort by
  descending count (entries of equal count keep the dictionary's order), cut to five.
\<close>

definition top_5 :: "histogram \<Rightarrow> (key \<times> nat) list" where
  "top_5 counts = take 5 (sort_key (\<lambda>x. - int (snd x)) counts)"

definition legend_label :: "key \<Rightarrow> error + string" where
  "legend_label cls =
     bind_err (py_int cls)
       (\<lambda>c. case map_of landcover_classes c of None \<Rightarrow> Inl KeyError | Some l \<Rightarrow> Inr l)"



section \<open>The NDVI rating block of the analysis run (streamlit\_app.py)\<close>

record rating_summary =
  bad_vegetation_ha :: real
  bad_vegetation_perc :: real

definition ndvi_rating_block :: "histogram \<Rightarrow> nat \<Rightarrow> error + rating_summary" where
  "ndvi_rating_block ndvi_rating scale_adjusted =
     (let total_pix = total_count ndvi_rating;
          good_vegetation = dict_get ndvi_rating (StrKey ''3'') 0
                          + dict_get ndvi_rating (StrKey ''4'') 0
                          + dict_get ndvi_rating (StrKey ''5'') 0;
          bad_vegetation = dict_get ndvi_rating (StrKey ''1'') 0
                         + dict_get ndvi_rating (StrKey ''2'') 0
      in bind_err (py_div (real bad_vegetation) (real total_pix))
           (\<lambda>q. Inr \<lparr> bad_vegetation_ha = real (bad_vegetation * scale_adjusted ^ 2) / 10 ^ 4,
                      bad_vegetation_perc = q * 100 \<rparr>))"

section \<open>The area limit of the analysis run (streamlit\_app.py)\<close>

text \<open>
  The geometry calls go to the remote raster service. The model is the plane, in metres:
  the drawn area of interest comes with the area and the centroid the service reports for
  it (two parameters), a buffered point is a disc and the bounds of a disc are the
  axis-aligned box around it. The ceiling is the constant 500 in the source and a parameter
  here; \<open>x ** 0.5\<close> is the real square root, for a ceiling that is not negative.
\<close>

type_synonym point = "real \<times> real"

datatype 'a geometry = Drawn 'a | Box point point

datatype disc = Disc point real

fun area :: "('a \<Rightarrow> real) \<Rightarrow> 'a geometry \<Rightarrow> real" where
  "area drawn_area (Drawn a) = drawn_area a"
| "area drawn_area (Box (x0, y0) (x1, y1)) = (x1 - x0) * (y1 - y0)"

fun centroid :: "('a \<Rightarrow> point) \<Rightarrow> 'a geometry \<Rightarrow> point" where
  "centroid drawn_centroid (Drawn a) = drawn_centroid a"
| "centroid drawn_centroid (Box (x0, y0) (x1, y1)) = ((x0 + x1) / 2, (y0 + y1) / 2)"

definition buffer :: "point \<Rightarrow> real \<Rightarrow> disc" where
  "buffer c r = Disc c r"

fun bounds :: "disc \<Rightarrow> 'a geometry" where
  "bounds (Disc (cx, cy) r) = Box (cx - r, cy - r) (cx + r, cy + r)"

definition enforce_area_limit ::
  "('a \<Rightarrow> real) \<Rightarrow> ('a \<Rightarrow> point) \<Rightarrow> 'a geometry \<Rightarrow> real \<Rightarrow> 'a geometry" where
  "enforce_area_limit drawn_area drawn_centroid aoi_ee max_aoi_km2 =
     (let area_km2 = area drawn_area aoi_ee / 1000000
      in if area_km2 > max_aoi_km2
         then (let c = centroid drawn_centroid aoi_ee;
                   side_m = sqrt (max_aoi_km2 * 1000000)
               in bounds (buffer c (side_m / 2)))
         else aoi_ee)"

text \<open>An axis-aligned square with the given centre and side length (in metres).\<close>

fun is_square :: "'a geometry \<Rightarrow> point \<Rightarrow> real \<Rightarrow> bool" where
  "is_square (Box (x0, y0) (x1, y1)) c side_m =
     (x1 - x0 = side_m \<and> y1 - y0 = side_m \<and> ((x0 + x1) / 2, (y0 + y1) / 2) = c)"
| "is_square (Drawn a) c side_m = False"

section \<open>Species occurrences (metrics/gbif\_metrics.py)\<close>

text \<open>
  An occurrence record is a JSON object, here its fields with their values as text. The
  occurrence search is a function from the offset of a request to the \<open>results\<close> of
  its response; the other request parameters are the same for every page.
\<close>

type_synonym occurrence = "(string \<times> string) list"







definition py_log :: "real \<Rightarrow> error + real" where
  "py_log x = (if x \<le> 0 then Inl ValueError else Inr (ln x))"

definition py_max :: "nat list \<Rightarrow> error + nat" where
  "py_max xs = (case xs of [] \<Rightarrow> Inl ValueError | x # r \<Rightarrow> Inr (fold max r x))"

definition has_species :: "occurrence \<Rightarrow> bool" where
  "has_species occ = (map_of occ ''species'' \<noteq> None)"

text \<open>\<open>[occ['species'] for occ in occurrences if 'species' in occ]\<close>\<close>

definition species_list :: "occurrence list \<Rightarrow> string list" where
  "species_list occurrences = List.map_filter (\<lambda>occ. map_of occ ''species'') occurrences"

text \<open>\<open>collections.Counter\<close>: one entry per species, in the order of first occurrence.\<close>

fun counter_add :: "(string \<times> nat) list \<Rightarrow> string \<Rightarrow> (string \<times> nat) list" where
  "counter_add [] s = [(s, 1)]"
| "counter_add ((k, n) # c) s = (if k = s then (k, n + 1) # c else (k, n) # counter_add c s)"

definition Counter :: "string list \<Rightarrow> (string \<times> nat) list" where
  "Counter xs = foldl counter_add [] xs"

record diversity_indices =
  species_richness :: nat
  shannon_index :: real
  simpson_index :: real
  evenness :: real
  berger_parker_dominance :: real

definition zero_indices :: diversity_indices where
  "zero_indices = \<lparr> species_richness = 0, shannon_index = 0, simpson_index = 0, evenness = 0,
                     berger_parker_dominance = 0 \<rparr>"

definition get_biodiversity_indices :: "occurrence list \<Rightarrow> error + diversity_indices" where
  "get_biodiversity_indices occurrences =
     (let species = species_list occurrences
      in if species = [] then Inr zero_indices
         else
           (let species_counts = Counter species;
                N = sum_list (map snd species_counts);
                S = length species_counts
            in bind_err (map_err (\<lambda>n. bind_err (py_div (real n) (real N))
                                     (\<lambda>p. bind_err (py_log p) (\<lambda>l. Inr (p * l))))
                           (map snd species_counts))
                 (\<lambda>terms. let shannon = - sum_list terms
                  in bind_err (map_err (\<lambda>n. bind_err (py_div (real n) (real N)) (\<lambda>p. Inr (p ^ 2)))
                                  (map snd species_counts))
                       (\<lambda>squares. let simpson = 1 - sum_list squares
                        in bind_err (if S > 1
                                     then bind_err (py_log (real S)) (\<lambda>l. py_div shannon l)
                                     else Inr 0)
                             (\<lambda>even. bind_err (py_max (map snd species_counts))
                                (\<lambda>m. bind_err (py_div (real m) (real N))
                                   (\<lambda>bp. Inr \<lparr> species_richness = S, shannon_index = shannon,
                                               simpson_index = simpson, evenness = even,
                                               berger_parker_dominance = bp \<rparr>)))))))"

section \<open>Properties\<close>

lemma bind_err_simps [simp]:
  "bind_err (Inl e) f = Inl e"
  "bind_err (Inr x) f = f x"
  by (simp_all add: bind_err_def)

text \<open>
  C1 (as the code behaves). With no forest pixel in the area of interest the rating
  histogram has total 0; the rating block then divides by that total and raises
  \<open>ZeroDivisionError\<close> instead of reporting 0 hectares and 0 percent. Evaluated on the
  empty histogram at a pixel scale of 10 m.
\<close>

theorem ndvi_rating_block_no_forest:
  "ndvi_rating_block [] 10 = Inl ZeroDivisionError"
  by (simp add: ndvi_rating_block_def total_count_def dict_values_def dict_get_def py_div_def)

text \<open>
  The same holds for every rating histogram of total 0, at every pixel scale. With a
  positive total the block reports the degraded share and area; the histogram
  \<open>{"1": 10, "2": 10, "3": 20, "4": 30, "5": 30}\<close> at 20 m gives 20 percent and 0.8 ha.
\<close>

lemma ndvi_rating_block_zero_total:
  "total_count ndvi_rating = 0 \<Longrightarrow> ndvi_rating_block ndvi_rating scale_adjusted = Inl ZeroDivisionError"
  by (simp add: ndvi_rating_block_def py_div_def)

lemma ndvi_rating_block_positive:
  "0 < total_count ndvi_rating \<Longrightarrow>
   ndvi_rating_block ndvi_rating scale_adjusted =
     Inr \<lparr> bad_vegetation_ha =
             real ((dict_get ndvi_rating (StrKey ''1'') 0 + dict_get ndvi_rating (StrKey ''2'') 0)
                     * scale_adjusted ^ 2) / 10 ^ 4,
           bad_vegetation_perc =
             real (dict_get ndvi_rating (StrKey ''1'') 0 + dict_get ndvi_rating (StrKey ''2'') 0)
               / real (total_count ndvi_rating) * 100 \<rparr>"
  by (simp add: ndvi_rating_block_def py_div_def)

lemma ndvi_rating_block_example:
  "ndvi_rating_block
     [(StrKey ''1'', 10), (StrKey ''2'', 10), (StrKey ''3'', 20), (StrKey ''4'', 30),
      (StrKey ''5'', 30)] 20
   = Inr \<lparr> bad_vegetation_ha = 8 / 10, bad_vegetation_perc = 20 \<rparr>"
  by (simp add: ndvi_rating_block_def py_div_def total_count_def dict_values_def dict_get_def)

subsection \<open>Errors and proportions\<close>


lemma map_err_Inr:
  assumes "\<forall>x \<in> set xs. f x = Inr (g x)"
  shows "map_err f xs = Inr (map g xs)"
  using assms by (induction xs) simp_all

lemma map_err_div:
  "t \<noteq> 0 \<Longrightarrow> map_err (\<lambda>c. py_div (real c) t) xs = Inr (map (\<lambda>c. real c / t) xs)"
  by (induction xs) (simp_all add: py_div_def)

lemma proportions_pos:
  "0 < total_count counts \<Longrightarrow>
   proportions counts = Inr (map (\<lambda>c. real c / real (total_count counts)) (dict_values counts))"
  by (simp add: proportions_def map_err_div)

lemma proportions_empty: "proportions [] = Inr []"
  by (simp add: proportions_def dict_values_def)

lemma proportions_zero:
  "counts \<noteq> [] \<Longrightarrow> total_count counts = 0 \<Longrightarrow> proportions counts = Inl ZeroDivisionError"
  by (cases counts) (simp_all add: proportions_def dict_values_def py_div_def)

lemma positive_proportions:
  assumes "0 < t"
  shows "filter (\<lambda>p. 0 < p) (map (\<lambda>c. real c / real t) (map snd counts))
       = map (\<lambda>(cls, count). real count / real t) (filter (\<lambda>(cls, count). 0 < count) counts)"
  using assms by (induction counts) (auto simp: zero_less_divide_iff)

subsection \<open>Shannon, Simpson and evenness\<close>

lemma shannon_formula:
  assumes "0 < total_count counts"
  shows "get_shannon_index counts =
           Inr (- (\<Sum>(cls, count) \<leftarrow> filter (\<lambda>(cls, count). 0 < count) counts.
                     (real count / real (total_count counts))
                       * ln (real count / real (total_count counts))))"
proof -
  have "map (\<lambda>p. p * ln p) (map (\<lambda>(cls, count). real count / real (total_count counts)) xs)
      = map (\<lambda>(cls, count). (real count / real (total_count counts))
                                * ln (real count / real (total_count counts))) xs"
    for xs :: histogram
    by (induction xs) auto
  then show ?thesis
    using assms
    by (simp add: get_shannon_index_def proportions_pos dict_values_def positive_proportions
        del: map_map)
qed

lemma simpson_formula:
  assumes "0 < total_count counts"
  shows "get_simpson_index counts =
           Inr (1 - (\<Sum>(cls, count) \<leftarrow> counts. (real count / real (total_count counts)) ^ 2))"
proof -
  have "map (\<lambda>p. p ^ 2) (map (\<lambda>c. real c / real (total_count counts)) (map snd xs))
      = map (\<lambda>(cls, count). (real count / real (total_count counts)) ^ 2) xs"
    for xs :: histogram
    by (induction xs) auto
  then show ?thesis
    using assms
    by (simp add: get_simpson_index_def proportions_pos dict_values_def del: map_map)
qed

lemma shannon_defined:
  assumes "0 < total_count counts \<or> counts = []"
  shows "\<exists>shannon. get_shannon_index counts = Inr shannon"
  using assms
  by (auto simp: get_shannon_index_def proportions_pos proportions_empty)

lemma shannon_zero_total:
  "counts \<noteq> [] \<Longrightarrow> total_count counts = 0 \<Longrightarrow> get_shannon_index counts = Inl ZeroDivisionError"
  by (simp add: get_shannon_index_def proportions_zero)

lemma ln_half: "ln (1 / 2 :: real) = - ln 2"
  by (simp add: ln_div)

lemma two_equal_classes_shannon:
  "get_shannon_index ((k1, 5) # (k2, 5) # replicate n (k3, 0)) = Inr (ln 2)"
proof -
  let ?h = "(k1, 5) # (k2, 5) # replicate n (k3, 0) :: histogram"
  have t: "total_count ?h = 10"
    by (simp add: total_count_def dict_values_def sum_list_replicate)
  have f: "filter (\<lambda>(cls, count). 0 < count) ?h = [(k1, 5), (k2, 5)]"
    by simp
  show ?thesis
    using shannon_formula[of ?h] unfolding f t by (simp add: ln_half)
qed

text \<open>
  C3 (as the code behaves). For every class histogram on which the Shannon index is defined
  (no entries at all, or a positive total), the evenness index is the Shannon index divided
  by the logarithm of the number of entries of the histogram when that number is greater
  than 1, and the sentinel 0 otherwise. The number of entries counts the classes recorded
  with a zero count too; it is the number of classes with a positive count whenever no entry
  has a zero count.
\<close>

theorem evenness_by_entries:
  assumes "0 < total_count counts \<or> counts = []"
  shows "\<exists>shannon. get_shannon_index counts = Inr shannon \<and>
           get_evenness_index counts =
             Inr (if 1 < length counts then shannon / ln (real (length counts)) else 0) \<and>
           ((\<forall>(cls, count) \<in> set counts. 0 < count) \<longrightarrow> length counts = present_classes counts)"
proof -
  from shannon_defined[OF assms] obtain s where s: "get_shannon_index counts = Inr s" ..
  have "(\<forall>(cls, count) \<in> set counts. 0 < count) \<longrightarrow> length counts = present_classes counts"
    by (auto simp: present_classes_def filter_id_conv)
  with s show ?thesis
    by (simp add: get_evenness_index_def)
qed

text \<open>Two classes of 5 pixels each: the evenness is \<open>ln 2 / ln 2 = 1\<close>.\<close>

theorem evenness_by_entries_witness:
  "0 < total_count [(StrKey ''10'', 5), (StrKey ''20'', 5)] \<and>
   present_classes [(StrKey ''10'', 5), (StrKey ''20'', 5)] = 2 \<and>
   get_evenness_index [(StrKey ''10'', 5), (StrKey ''20'', 5)] = Inr 1"
proof -
  let ?h = "[(StrKey ''10'', 5), (StrKey ''20'', 5)] :: histogram"
  have t: "0 < total_count ?h" by (simp add: total_count_def dict_values_def)
  have sh: "get_shannon_index ?h = Inr (ln 2)"
    using two_equal_classes_shannon[of "StrKey ''10''" "StrKey ''20''" 0] by simp
  have pc: "present_classes ?h = 2" by (simp add: present_classes_def)
  from evenness_by_entries[of ?h] t obtain s where
    "get_shannon_index ?h = Inr s"
    "get_evenness_index ?h = Inr (if 1 < length ?h then s / ln (real (length ?h)) else 0)"
    by blast
  with sh have "get_evenness_index ?h = Inr 1" by simp
  with t pc show ?thesis by simp
qed

text \<open>
  The claim as stated fails on a histogram with a class of zero count: two classes of 5
  pixels and one of 0 pixels have Shannon index \<open>ln 2\<close> and two classes present, but the
  evenness computed is \<open>ln 2 / ln 3\<close>, not \<open>ln 2 / ln 2\<close>.
\<close>

theorem evenness_counterexample:
  "get_shannon_index [(StrKey ''10'', 5), (StrKey ''20'', 5), (StrKey ''30'', 0)] = Inr (ln 2) \<and>
   present_classes [(StrKey ''10'', 5), (StrKey ''20'', 5), (StrKey ''30'', 0)] = 2 \<and>
   get_evenness_index [(StrKey ''10'', 5), (StrKey ''20'', 5), (StrKey ''30'', 0)]
     = Inr (ln 2 / ln 3) \<and>
   ln 2 / ln 3 \<noteq>
     (ln 2 / ln (real (present_classes
        [(StrKey ''10'', 5), (StrKey ''20'', 5), (StrKey ''30'', 0)])) :: real)"
proof -
  let ?h = "[(StrKey ''10'', 5), (StrKey ''20'', 5), (StrKey ''30'', 0)] :: histogram"
  have sh: "get_shannon_index ?h = Inr (ln 2)"
    using two_equal_classes_shannon[of "StrKey ''10''" "StrKey ''20''" 1 "StrKey ''30''"]
    by (simp add: numeral_eq_Suc)
  have pc: "present_classes ?h = 2" by (simp add: present_classes_def)
  have ev: "get_evenness_index ?h = Inr (ln 2 / ln 3)"
    by (simp add: get_evenness_index_def sh)
  have "ln (2::real) < ln 3" by simp
  moreover have "0 < ln (2::real)" by simp
  ultimately have "ln 2 / ln 3 \<noteq> (ln 2 / ln 2 :: real)" by (simp add: field_simps)
  with sh pc ev show ?thesis by simp
qed

subsection \<open>Bounds on the logarithms of the worked example\<close>

lemma exp_lower:
  fixes x :: real
  assumes "0 \<le> x"
  shows "(\<Sum>m<n. x ^ m / fact m) \<le> exp x"
proof -
  from Maclaurin_exp_le[of x n] obtain t where
    "exp x = (\<Sum>m<n. x ^ m / fact m) + (exp t / fact n) * x ^ n" by blast
  moreover have "0 \<le> (exp t / fact n) * x ^ n"
    using assms by simp
  ultimately show ?thesis by linarith
qed

lemma exp_upper:
  fixes x :: real
  assumes "0 \<le> x" and "x ^ n / fact n < 1"
  shows "exp x \<le> (\<Sum>m<n. x ^ m / fact m) / (1 - x ^ n / fact n)"
proof -
  from Maclaurin_exp_le[of x n] obtain t where t: "\<bar>t\<bar> \<le> \<bar>x\<bar>"
    and eq: "exp x = (\<Sum>m<n. x ^ m / fact m) + (exp t / fact n) * x ^ n" by blast
  define r where "r = x ^ n / fact n"
  define S where "S = (\<Sum>m<n. x ^ m / fact m)"
  have r0: "0 \<le> r" using assms(1) by (simp add: r_def)
  have eq': "exp x = S + exp t * r" using eq by (simp add: r_def S_def)
  from t assms(1) have "exp t \<le> exp x" by simp
  then have "exp t * r \<le> exp x * r" using r0 by (rule mult_right_mono)
  with eq' have "exp x * (1 - r) \<le> S" by (simp add: algebra_simps)
  moreover have "0 < 1 - r" using assms(2) by (simp add: r_def)
  ultimately have "exp x \<le> S / (1 - r)" by (simp add: pos_le_divide_eq)
  then show ?thesis by (simp add: r_def S_def)
qed

lemma ln_upper:
  fixes x y :: real
  assumes "0 < x" and "x \<le> exp y"
  shows "ln x \<le> y"
proof -
  have "ln x \<le> ln (exp y)"
    using assms by (subst ln_le_cancel_iff) simp_all
  then show ?thesis by simp
qed

lemma ln_lower:
  fixes x y :: real
  assumes "0 < x" and "exp y \<le> x"
  shows "y \<le> ln x"
  using assms by (simp add: ln_ge_iff)

lemma ln_10_7_upper: "ln (10 / 7 :: real) \<le> 3567 / 10000"
proof (rule ln_upper)
  have "(10 / 7 :: real) \<le> (\<Sum>m<7. (3567 / 10000) ^ m / fact m)"
    by (simp add: numeral_eq_Suc)
  also have "\<dots> \<le> exp (3567 / 10000)" by (rule exp_lower) simp
  finally show "(10 / 7 :: real) \<le> exp (3567 / 10000)" .
qed simp

lemma ln_10_7_lower: "35667 / 100000 \<le> ln (10 / 7 :: real)"
proof (rule ln_lower)
  have "exp (35667 / 100000 :: real)
      \<le> (\<Sum>m<7. (35667 / 100000) ^ m / fact m) / (1 - (35667 / 100000) ^ 7 / fact 7)"
    by (rule exp_upper) (simp_all add: numeral_eq_Suc)
  also have "\<dots> \<le> 10 / 7" by (simp add: numeral_eq_Suc)
  finally show "exp (35667 / 100000 :: real) \<le> 10 / 7" .
qed simp

lemma ln_10_3_upper: "ln (10 / 3 :: real) \<le> 1204 / 1000"
proof (rule ln_upper)
  have "(10 / 3 :: real) \<le> (\<Sum>m<11. (1204 / 1000) ^ m / fact m)"
    by (simp add: numeral_eq_Suc)
  also have "\<dots> \<le> exp (1204 / 1000)" by (rule exp_lower) simp
  finally show "(10 / 3 :: real) \<le> exp (1204 / 1000)" .
qed simp

lemma ln_10_3_lower: "120397 / 100000 \<le> ln (10 / 3 :: real)"
proof (rule ln_lower)
  have "exp (120397 / 100000 :: real)
      \<le> (\<Sum>m<11. (120397 / 100000) ^ m / fact m) / (1 - (120397 / 100000) ^ 11 / fact 11)"
    by (rule exp_upper) (simp_all add: numeral_eq_Suc)
  also have "\<dots> \<le> 10 / 3" by (simp add: numeral_eq_Suc)
  finally show "exp (120397 / 100000 :: real) \<le> 10 / 3" .
qed simp

lemma ln_2_upper: "ln (2 :: real) \<le> 69315 / 100000"
proof (rule ln_upper)
  have "(2 :: real) \<le> (\<Sum>m<9. (69315 / 100000) ^ m / fact m)"
    by (simp add: numeral_eq_Suc)
  also have "\<dots> \<le> exp (69315 / 100000)" by (rule exp_lower) simp
  finally show "(2 :: real) \<le> exp (69315 / 100000)" .
qed simp

lemma ln_2_lower: "6931 / 10000 \<le> ln (2 :: real)"
proof (rule ln_lower)
  have "exp (6931 / 10000 :: real)
      \<le> (\<Sum>m<9. (6931 / 10000) ^ m / fact m) / (1 - (6931 / 10000) ^ 9 / fact 9)"
    by (rule exp_upper) (simp_all add: numeral_eq_Suc)
  also have "\<dots> \<le> 2" by (simp add: numeral_eq_Suc)
  finally show "exp (6931 / 10000 :: real) \<le> 2" .
qed simp

lemma example_entropy:
  "- (7 / 10 * ln (7 / 10) + 3 / 10 * ln (3 / 10))
     = (7 / 10 * ln (10 / 7) + 3 / 10 * ln (10 / 3) :: real)"
proof -
  have "ln (7 / 10 :: real) = - ln (10 / 7)" "ln (3 / 10 :: real) = - ln (10 / 3)"
    by (simp_all add: ln_div)
  then show ?thesis by simp
qed

lemma example_shannon_bounds:
  "61086 / 100000 \<le> - (7 / 10 * ln (7 / 10) + 3 / 10 * ln (3 / 10) :: real)"
  "- (7 / 10 * ln (7 / 10) + 3 / 10 * ln (3 / 10) :: real) \<le> 61089 / 100000"
  unfolding example_entropy
  using ln_10_7_lower ln_10_7_upper ln_10_3_lower ln_10_3_upper by linarith+

lemma example_shannon_approx:
  "\<bar>- (7 / 10 * ln (7 / 10) + 3 / 10 * ln (3 / 10)) - 611 / 1000 :: real\<bar> < 1 / 1000"
  using example_shannon_bounds by linarith

lemma example_evenness_approx:
  "\<bar>- (7 / 10 * ln (7 / 10) + 3 / 10 * ln (3 / 10)) / ln 2 - 882 / 1000 :: real\<bar> < 1 / 1000"
proof -
  let ?H = "- (7 / 10 * ln (7 / 10) + 3 / 10 * ln (3 / 10)) :: real"
  have pos: "0 < ln (2 :: real)" by simp
  have "881 / 1000 * ln 2 < ?H"
    using example_shannon_bounds(1) ln_2_upper by linarith
  then have lo: "881 / 1000 < ?H / ln 2"
    using pos by (simp add: pos_less_divide_eq)
  have "?H < 883 / 1000 * ln 2"
    using example_shannon_bounds(2) ln_2_lower by linarith
  then have hi: "?H / ln 2 < 883 / 1000"
    using pos by (simp add: pos_divide_less_eq)
  from lo hi show ?thesis by linarith
qed

subsection \<open>The keys of the habitat classes\<close>

lemma natural_keys:
  "map py_str natural_classes = [''10'', ''20'', ''30'', ''90'', ''95'', ''100'']"
  by code_simp

lemma anthropogenic_keys:
  "map py_str anthropogenic_classes = [''40'', ''50'', ''60'', ''70'', ''80'']"
  by code_simp

lemma class_count_keys:
  "class_count counts classes
     = sum_list (map (\<lambda>s. dict_get counts (StrKey s) 0) (map py_str classes))"
  by (simp add: class_count_def comp_def)

lemma habitat_keys_eval:
  "habitat_keys = [StrKey ''10'', StrKey ''20'', StrKey ''30'', StrKey ''90'', StrKey ''95'',
     StrKey ''100'', StrKey ''40'', StrKey ''50'', StrKey ''60'', StrKey ''70'', StrKey ''80'']"
  by code_simp

lemma example_fractions:
  "get_natural_habitat_fraction [(StrKey ''10'', 700), (StrKey ''40'', 300)] = 7 / 10"
  "get_anthropogenic_habitat_fraction [(StrKey ''10'', 700), (StrKey ''40'', 300)] = 3 / 10"
  unfolding get_natural_habitat_fraction_def get_anthropogenic_habitat_fraction_def
    class_count_keys natural_keys anthropogenic_keys
  by (simp_all add: total_count_def dict_values_def dict_get_def)

text \<open>
  C4. For every class histogram with at least one pixel, the Shannon index is
  \<open>-\<Sum> p ln p\<close> over the classes with a positive count, with \<open>p = count / total\<close> and
  \<open>total\<close> the sum of all counts, and the Simpson index is \<open>1 - \<Sum> p\<^sup>2\<close>. For the
  histogram \<open>{"10": 700, "40": 300}\<close> the natural fraction is 0.7, the anthropogenic
  fraction 0.3, the Shannon index \<open>-(0.7 ln 0.7 + 0.3 ln 0.3)\<close>, which is 0.611 to within
  0.001, the Simpson index 0.42, and the evenness the Shannon index over \<open>ln 2\<close>, which is
  0.882 to within 0.001.
\<close>

theorem landcover_indices:
  "(\<forall>counts. 0 < total_count counts \<longrightarrow>
      get_shannon_index counts =
        Inr (- (\<Sum>(cls, count) \<leftarrow> filter (\<lambda>(cls, count). 0 < count) counts.
                  (real count / real (total_count counts))
                    * ln (real count / real (total_count counts)))) \<and>
      get_simpson_index counts =
        Inr (1 - (\<Sum>(cls, count) \<leftarrow> counts. (real count / real (total_count counts)) ^ 2))) \<and>
   get_natural_habitat_fraction [(StrKey ''10'', 700), (StrKey ''40'', 300)] = 7 / 10 \<and>
   get_anthropogenic_habitat_fraction [(StrKey ''10'', 700), (StrKey ''40'', 300)] = 3 / 10 \<and>
   get_shannon_index [(StrKey ''10'', 700), (StrKey ''40'', 300)]
     = Inr (- (7 / 10 * ln (7 / 10) + 3 / 10 * ln (3 / 10))) \<and>
   \<bar>- (7 / 10 * ln (7 / 10) + 3 / 10 * ln (3 / 10)) - 611 / 1000 :: real\<bar> < 1 / 1000 \<and>
   get_simpson_index [(StrKey ''10'', 700), (StrKey ''40'', 300)] = Inr (42 / 100) \<and>
   get_evenness_index [(StrKey ''10'', 700), (StrKey ''40'', 300)]
     = Inr (- (7 / 10 * ln (7 / 10) + 3 / 10 * ln (3 / 10)) / ln 2) \<and>
   \<bar>- (7 / 10 * ln (7 / 10) + 3 / 10 * ln (3 / 10)) / ln 2 - 882 / 1000 :: real\<bar> < 1 / 1000"
proof -
  let ?h = "[(StrKey ''10'', 700), (StrKey ''40'', 300)] :: histogram"
  have t: "total_count ?h = 1000" by (simp add: total_count_def dict_values_def)
  have general: "\<forall>counts. 0 < total_count counts \<longrightarrow>
      get_shannon_index counts =
        Inr (- (\<Sum>(cls, count) \<leftarrow> filter (\<lambda>(cls, count). 0 < count) counts.
                  (real count / real (total_count counts))
                    * ln (real count / real (total_count counts)))) \<and>
      get_simpson_index counts =
        Inr (1 - (\<Sum>(cls, count) \<leftarrow> counts. (real count / real (total_count counts)) ^ 2))"
    by (intro allI impI conjI shannon_formula simpson_formula)
  have sh: "get_shannon_index ?h = Inr (- (7 / 10 * ln (7 / 10) + 3 / 10 * ln (3 / 10)))"
    using shannon_formula[of ?h] unfolding t by simp
  have si: "get_simpson_index ?h = Inr (42 / 100)"
    using simpson_formula[of ?h] unfolding t by (simp add: power2_eq_square)
  have ev: "get_evenness_index ?h
              = Inr (- (7 / 10 * ln (7 / 10) + 3 / 10 * ln (3 / 10)) / ln 2)"
    unfolding get_evenness_index_def sh by simp
  from general example_fractions sh example_shannon_approx si ev example_evenness_approx
  show ?thesis by blast
qed

text \<open>Two classes of 5 pixels each: Shannon index \<open>ln 2\<close>, Simpson index 1/2.\<close>

theorem landcover_indices_witness:
  "0 < total_count [(StrKey ''10'', 5), (StrKey ''20'', 5)] \<and>
   get_shannon_index [(StrKey ''10'', 5), (StrKey ''20'', 5)] = Inr (ln 2) \<and>
   get_simpson_index [(StrKey ''10'', 5), (StrKey ''20'', 5)] = Inr (1 / 2)"
proof -
  let ?h = "[(StrKey ''10'', 5), (StrKey ''20'', 5)] :: histogram"
  have t: "total_count ?h = 10" by (simp add: total_count_def dict_values_def)
  then have pos: "0 < total_count ?h" by simp
  from landcover_indices pos have
    "get_shannon_index ?h =
        Inr (- (\<Sum>(cls, count) \<leftarrow> filter (\<lambda>(cls, count). 0 < count) ?h.
                  (real count / real (total_count ?h)) * ln (real count / real (total_count ?h))))"
    "get_simpson_index ?h =
        Inr (1 - (\<Sum>(cls, count) \<leftarrow> ?h. (real count / real (total_count ?h)) ^ 2))"
    by blast+
  then have "get_shannon_index ?h = Inr (ln 2)" "get_simpson_index ?h = Inr (1 / 2)"
    unfolding t by (simp_all add: ln_half power2_eq_square)
  with pos show ?thesis by simp
qed

subsection \<open>Habitat fractions\<close>

lemma dict_get_Cons:
  "dict_get ((k0, v0) # h) k d = (if k = k0 then v0 else dict_get h k d)"
  by (simp add: dict_get_def)

lemma dict_get_absent: "k \<notin> fst ` set h \<Longrightarrow> dict_get h k 0 = 0"
  by (simp add: dict_get_def map_of_eq_None_iff[THEN iffD2])

lemma sum_list_lookup_Cons:
  "distinct ks \<Longrightarrow>
   sum_list (map (\<lambda>k. if k = k0 then v0 else f k) ks)
     = (if k0 \<in> set ks then (v0::nat) else 0)
       + sum_list (map (\<lambda>k. if k = k0 then 0 else f k) ks)"
  by (induction ks) auto

lemma lookup_sum_filter:
  "distinct (map fst h) \<Longrightarrow> distinct ks \<Longrightarrow>
   sum_list (map (\<lambda>k. dict_get h k 0) ks)
     = sum_list (map snd (filter (\<lambda>e. fst e \<in> set ks) h))"
proof (induction h)
  case Nil
  then show ?case by (simp add: dict_get_def)
next
  case (Cons e h)
  obtain k0 v0 where e: "e = (k0, v0)" by (cases e)
  from Cons.prems e have absent: "k0 \<notin> fst ` set h" and dh: "distinct (map fst h)" by auto
  have same: "map (\<lambda>k. if k = k0 then 0 else dict_get h k 0) ks = map (\<lambda>k. dict_get h k 0) ks"
    using dict_get_absent[OF absent] by auto
  have "sum_list (map (\<lambda>k. dict_get (e # h) k 0) ks)
      = sum_list (map (\<lambda>k. if k = k0 then v0 else dict_get h k 0) ks)"
    unfolding e dict_get_Cons ..
  also have "\<dots> = (if k0 \<in> set ks then v0 else 0)
      + sum_list (map (\<lambda>k. if k = k0 then 0 else dict_get h k 0) ks)"
    by (rule sum_list_lookup_Cons[OF Cons.prems(2)])
  also have "\<dots> = (if k0 \<in> set ks then v0 else 0) + sum_list (map (\<lambda>k. dict_get h k 0) ks)"
    unfolding same ..
  finally have step: "sum_list (map (\<lambda>k. dict_get (e # h) k 0) ks)
      = (if k0 \<in> set ks then v0 else 0) + sum_list (map (\<lambda>k. dict_get h k 0) ks)" .
  show ?case unfolding step Cons.IH[OF dh Cons.prems(2)] by (simp add: e)
qed

lemma filter_sum_le:
  "sum_list (map snd (filter P h)) \<le> sum_list (map snd (h :: ('a \<times> nat) list))"
  by (induction h) auto

lemma filter_sum_eq_iff:
  "sum_list (map snd (filter P h)) = sum_list (map snd (h :: ('a \<times> nat) list))
     \<longleftrightarrow> (\<forall>e \<in> set h. 0 < snd e \<longrightarrow> P e)"
proof (induction h)
  case Nil
  then show ?case by simp
next
  case (Cons e h)
  have le: "sum_list (map snd (filter P h)) \<le> sum_list (map snd h)" by (rule filter_sum_le)
  show ?case
  proof (cases "P e")
    case True
    with Cons.IH show ?thesis by simp
  next
    case False
    with Cons.IH le show ?thesis by auto
  qed
qed

lemma habitat_keys_distinct: "distinct habitat_keys"
  by (simp add: habitat_keys_eval)

lemma class_count_sum:
  "class_count counts natural_classes + class_count counts anthropogenic_classes
     = sum_list (map (\<lambda>k. dict_get counts k 0) habitat_keys)"
  by (simp add: class_count_def habitat_keys_def comp_def)

lemma habitat_count:
  "dict_ok counts \<Longrightarrow>
   class_count counts natural_classes + class_count counts anthropogenic_classes
     = sum_list (map snd (filter (\<lambda>e. fst e \<in> set habitat_keys) counts))"
  unfolding class_count_sum dict_ok_def
  by (rule lookup_sum_filter[OF _ habitat_keys_distinct])

text \<open>
  C5. For every class histogram with at least one pixel, the natural and the anthropogenic
  habitat fraction sum to at most 1, and to exactly 1 if and only if every class that
  occurs in the histogram (has a positive count) is one of the natural classes
  10, 20, 30, 90, 95, 100 or of the anthropogenic classes 40, 50, 60, 70, 80. Classes are
  the decimal strings that are the keys of the histogram.
\<close>

theorem habitat_fractions_sum:
  assumes "dict_ok counts" and "0 < total_count counts"
  shows "get_natural_habitat_fraction counts + get_anthropogenic_habitat_fraction counts \<le> 1 \<and>
         (get_natural_habitat_fraction counts + get_anthropogenic_habitat_fraction counts = 1
            \<longleftrightarrow> (\<forall>(cls, count) \<in> set counts. 0 < count \<longrightarrow> cls \<in> set habitat_keys))"
proof -
  let ?n = "class_count counts natural_classes"
  let ?a = "class_count counts anthropogenic_classes"
  let ?t = "total_count counts"
  have sum: "get_natural_habitat_fraction counts + get_anthropogenic_habitat_fraction counts
               = real (?n + ?a) / real ?t"
    using assms(2)
    by (simp add: get_natural_habitat_fraction_def get_anthropogenic_habitat_fraction_def
        add_divide_distrib)
  have cnt: "?n + ?a = sum_list (map snd (filter (\<lambda>e. fst e \<in> set habitat_keys) counts))"
    by (rule habitat_count[OF assms(1)])
  have le: "?n + ?a \<le> ?t"
    unfolding cnt total_count_def dict_values_def by (rule filter_sum_le)
  have bound: "get_natural_habitat_fraction counts + get_anthropogenic_habitat_fraction counts \<le> 1"
    unfolding sum using le assms(2) by simp
  have "real (?n + ?a) / real ?t = 1 \<longleftrightarrow> real (?n + ?a) = real ?t"
    using assms(2) by (auto simp: field_simps)
  also have "\<dots> \<longleftrightarrow> ?n + ?a = ?t"
    by (rule of_nat_eq_iff)
  also have "\<dots> \<longleftrightarrow> (\<forall>e \<in> set counts. 0 < snd e \<longrightarrow> fst e \<in> set habitat_keys)"
    unfolding cnt total_count_def dict_values_def by (rule filter_sum_eq_iff)
  also have "\<dots> \<longleftrightarrow> (\<forall>(cls, count) \<in> set counts. 0 < count \<longrightarrow> cls \<in> set habitat_keys)"
    by auto
  finally have "get_natural_habitat_fraction counts + get_anthropogenic_habitat_fraction counts = 1
           \<longleftrightarrow> (\<forall>(cls, count) \<in> set counts. 0 < count \<longrightarrow> cls \<in> set habitat_keys)"
    unfolding sum .
  with bound show ?thesis by blast
qed

text \<open>
  Tree cover and cropland only: the fractions sum to 1. With 100 pixels of a class outside
  both sets the sum stays below 1.
\<close>

theorem habitat_fractions_sum_witness:
  "dict_ok [(StrKey ''10'', 700), (StrKey ''40'', 300)] \<and>
   0 < total_count [(StrKey ''10'', 700), (StrKey ''40'', 300)] \<and>
   get_natural_habitat_fraction [(StrKey ''10'', 700), (StrKey ''40'', 300)]
     + get_anthropogenic_habitat_fraction [(StrKey ''10'', 700), (StrKey ''40'', 300)] = 1 \<and>
   dict_ok [(StrKey ''10'', 700), (StrKey ''999'', 100)] \<and>
   0 < total_count [(StrKey ''10'', 700), (StrKey ''999'', 100)] \<and>
   get_natural_habitat_fraction [(StrKey ''10'', 700), (StrKey ''999'', 100)]
     + get_anthropogenic_habitat_fraction [(StrKey ''10'', 700), (StrKey ''999'', 100)] < 1"
proof -
  let ?h = "[(StrKey ''10'', 700), (StrKey ''40'', 300)] :: histogram"
  let ?g = "[(StrKey ''10'', 700), (StrKey ''999'', 100)] :: histogram"
  have ok: "dict_ok ?h" "dict_ok ?g" by (simp_all add: dict_ok_def)
  have pos: "0 < total_count ?h" "0 < total_count ?g"
    by (simp_all add: total_count_def dict_values_def)
  have inside: "\<forall>(cls, count) \<in> set ?h. 0 < count \<longrightarrow> cls \<in> set habitat_keys"
    by (simp add: habitat_keys_eval)
  have outside: "\<not> (\<forall>(cls, count) \<in> set ?g. 0 < count \<longrightarrow> cls \<in> set habitat_keys)"
    by (simp add: habitat_keys_eval)
  from habitat_fractions_sum[OF ok(1) pos(1)] inside
  have one: "get_natural_habitat_fraction ?h + get_anthropogenic_habitat_fraction ?h = 1"
    by blast
  from habitat_fractions_sum[OF ok(2) pos(2)] outside
  have less: "get_natural_habitat_fraction ?g + get_anthropogenic_habitat_fraction ?g < 1"
    by (simp only: less_le) blast
  from ok pos one less show ?thesis by blast
qed

subsection \<open>Histograms keyed by integers\<close>

lemma class_count_no_str:
  assumes "\<forall>k \<in> set (map fst counts). \<not> is_str k"
  shows "class_count counts classes = 0"
proof -
  have "dict_get counts (StrKey s) 0 = 0" for s
  proof (rule dict_get_absent)
    show "StrKey s \<notin> fst ` set counts"
      using assms by force
  qed
  then show ?thesis by (simp add: class_count_def)
qed

lemma proportions_values:
  "dict_values h' = dict_values h \<Longrightarrow> proportions h' = proportions h"
  by (simp add: proportions_def total_count_def)

lemma values_length: "dict_values h' = dict_values h \<Longrightarrow> length h' = length h"
  by (metis dict_values_def length_map)

text \<open>
  C10. The habitat fractions look classes up by the decimal string of the class code. For
  every histogram none of whose keys is a string (keys that are integers), both fractions
  are 0, whatever the classes are, while the Shannon, Simpson and evenness indices are
  those of any histogram with the same values: they are computed from the values alone.
\<close>

theorem integer_keys:
  assumes "\<forall>k \<in> set (map fst counts). \<not> is_str k"
  shows "get_natural_habitat_fraction counts = 0 \<and>
         get_anthropogenic_habitat_fraction counts = 0 \<and>
         (\<forall>counts'. dict_values counts' = dict_values counts \<longrightarrow>
            get_shannon_index counts = get_shannon_index counts' \<and>
            get_simpson_index counts = get_simpson_index counts' \<and>
            get_evenness_index counts = get_evenness_index counts')"
proof -
  have "get_natural_habitat_fraction counts = 0"
    by (simp add: get_natural_habitat_fraction_def Let_def class_count_no_str[OF assms])
  moreover have "get_anthropogenic_habitat_fraction counts = 0"
    by (simp add: get_anthropogenic_habitat_fraction_def Let_def class_count_no_str[OF assms])
  moreover have "get_shannon_index counts = get_shannon_index counts' \<and>
            get_simpson_index counts = get_simpson_index counts' \<and>
            get_evenness_index counts = get_evenness_index counts'"
    if "dict_values counts' = dict_values counts" for counts'
    using proportions_values[OF that] values_length[OF that]
    by (simp add: get_shannon_index_def get_simpson_index_def get_evenness_index_def)
  ultimately show ?thesis by blast
qed

text \<open>
  The histogram \<open>{10: 700, 40: 300}\<close> with integer keys: both fractions are 0, although
  the same counts under the keys \<open>"10"\<close> and \<open>"40"\<close> give a natural fraction of 0.7; the
  Shannon index is the one of the string-keyed histogram and the Simpson index is 0.42.
\<close>

theorem integer_keys_witness:
  "get_natural_habitat_fraction [(IntKey 10, 700), (IntKey 40, 300)] = 0 \<and>
   get_anthropogenic_habitat_fraction [(IntKey 10, 700), (IntKey 40, 300)] = 0 \<and>
   get_natural_habitat_fraction [(StrKey ''10'', 700), (StrKey ''40'', 300)] = 7 / 10 \<and>
   get_shannon_index [(IntKey 10, 700), (IntKey 40, 300)]
     = get_shannon_index [(StrKey ''10'', 700), (StrKey ''40'', 300)] \<and>
   get_simpson_index [(IntKey 10, 700), (IntKey 40, 300)] = Inr (42 / 100)"
proof -
  let ?h = "[(IntKey 10, 700), (IntKey 40, 300)] :: histogram"
  let ?s = "[(StrKey ''10'', 700), (StrKey ''40'', 300)] :: histogram"
  have pre: "\<forall>k \<in> set (map fst ?h). \<not> is_str k" by simp
  have vals: "dict_values ?s = dict_values ?h" by (simp add: dict_values_def)
  have t: "total_count ?h = 1000" by (simp add: total_count_def dict_values_def)
  have simpson: "get_simpson_index ?h = Inr (42 / 100)"
    using simpson_formula[of ?h] t by (simp add: power2_eq_square)
  from integer_keys[OF pre] vals example_fractions(1) simpson show ?thesis by blast
qed

subsection \<open>The five largest classes\<close>


lemma top_5_subset: "set (top_5 counts) \<subseteq> set counts"
  unfolding top_5_def using set_take_subset[of 5 "sort_key (\<lambda>x. - int (snd x)) counts"] by simp


text \<open>An entry left out of the five has no larger count than any entry kept.\<close>

lemma top_5_largest:
  assumes "a \<in> set (top_5 counts)"
    and "b \<in> set (drop 5 (sort_key (\<lambda>x. - int (snd x)) counts))"
  shows "snd b \<le> snd a"
proof -
  let ?s = "sort_key (\<lambda>x. - int (snd x)) counts"
  have "sorted (map (\<lambda>x. - int (snd x)) ?s)" by (rule sorted_sort_key)
  then have "sorted_wrt (\<lambda>x y. snd y \<le> snd x) (take 5 ?s @ drop 5 ?s)"
    by (simp add: sorted_wrt_map)
  then show ?thesis
    using assms unfolding top_5_def sorted_wrt_append by blast
qed

text \<open>
  A key has a label exactly when it reads as an integer that is one of the eleven codes of
  the legend.
\<close>

lemma legend_codes:
  "map fst landcover_classes = [10, 20, 30, 40, 50, 60, 70, 80, 90, 95, 100]"
  by (simp add: landcover_classes_def)

lemma legend_label_Inr_iff:
  "legend_label cls = Inr l \<longleftrightarrow> (\<exists>c. py_int cls = Inr c \<and> (c, l) \<in> set landcover_classes)"
proof -
  have d: "distinct (map fst landcover_classes)"
    by (simp add: legend_codes)
  show ?thesis
  proof (cases "py_int cls")
    case (Inl e)
    then show ?thesis by (simp add: legend_label_def)
  next
    case (Inr c)
    then show ?thesis
      using map_of_eq_Some_iff[OF d, of c l]
      by (auto simp: legend_label_def split: option.splits)
  qed
qed





subsection \<open>The area limit\<close>

lemma sqrt_million: "sqrt (m * 1000000) = sqrt m * 1000"
proof -
  have "sqrt (1000000 :: real) = 1000"
    by (rule real_sqrt_unique) simp_all
  then show ?thesis by (simp add: real_sqrt_mult)
qed

lemma substitute_square: "is_square (bounds (buffer c (s / 2))) c s"
  by (cases c) (simp add: buffer_def)


text \<open>
  C2 (as the code behaves). For a ceiling \<open>max_km2\<close> that is not negative: an area of
  interest of at most \<open>max_km2\<close> square kilometres is returned unchanged; a larger one is
  replaced by the axis-aligned square centred on its centroid whose side is
  \<open>\<surd>max_km2\<close> kilometres (\<open>1000 \<surd>max_km2\<close> metres), the square of area \<open>max_km2\<close>.
\<close>

theorem area_limit_square:
  assumes "0 \<le> max_km2"
  shows "(area da aoi / 1000000 \<le> max_km2 \<longrightarrow> enforce_area_limit da dc aoi max_km2 = aoi) \<and>
         (area da aoi / 1000000 > max_km2 \<longrightarrow>
            is_square (enforce_area_limit da dc aoi max_km2) (centroid dc aoi)
              (sqrt max_km2 * 1000))"
proof (intro conjI impI)
  assume "area da aoi / 1000000 \<le> max_km2"
  then show "enforce_area_limit da dc aoi max_km2 = aoi"
    by (simp add: enforce_area_limit_def Let_def)
next
  assume "area da aoi / 1000000 > max_km2"
  then have "enforce_area_limit da dc aoi max_km2
               = bounds (buffer (centroid dc aoi) (sqrt max_km2 * 1000 / 2))"
    unfolding enforce_area_limit_def Let_def sqrt_million by simp
  then show "is_square (enforce_area_limit da dc aoi max_km2) (centroid dc aoi)
               (sqrt max_km2 * 1000)"
    by (simp only: substitute_square)
qed

text \<open>
  With the ceiling of 500 square kilometres of the source: a drawn area of 1000 square
  kilometres around the origin becomes the square of side \<open>1000 \<surd>500\<close> metres around
  the origin, a drawn area of 100 square kilometres is kept.
\<close>

theorem area_limit_square_witness:
  "(0::real) \<le> 500 \<and>
   area fst (Drawn (1000000000, (0, 0)) :: (real \<times> point) geometry) / 1000000 > (500::real) \<and>
   is_square (enforce_area_limit fst snd (Drawn (1000000000, (0, 0))) 500) (0, 0)
     (sqrt 500 * 1000) \<and>
   area fst (Drawn (100000000, (0, 0)) :: (real \<times> point) geometry) / 1000000 \<le> (500::real) \<and>
   enforce_area_limit fst snd (Drawn (100000000, (0, 0))) 500 = Drawn (100000000, (0, 0))"
proof -
  let ?big = "Drawn (1000000000, (0, 0)) :: (real \<times> point) geometry"
  let ?small = "Drawn (100000000, (0, 0)) :: (real \<times> point) geometry"
  have h: "(0::real) \<le> 500" by simp
  have b: "area fst ?big / 1000000 > (500::real)" by simp
  have s: "area fst ?small / 1000000 \<le> (500::real)" by simp
  from area_limit_square[OF h, of fst ?big snd] b
  have "is_square (enforce_area_limit fst snd ?big 500) (centroid snd ?big) (sqrt 500 * 1000)"
    by blast
  then have sq: "is_square (enforce_area_limit fst snd ?big 500) (0, 0) (sqrt 500 * 1000)"
    by simp
  from area_limit_square[OF h, of fst ?small snd] s
  have keep: "enforce_area_limit fst snd ?small 500 = ?small"
    by blast
  from h b sq s keep show ?thesis by blast
qed

text \<open>
  The claim as stated fails: the square that replaces a drawn area of 1000 square
  kilometres under the ceiling of 500 has the side \<open>1000 \<surd>500\<close> metres, not
  \<open>2 \<surd>500\<close> kilometres.
\<close>

theorem area_limit_counterexample:
  "area fst (Drawn (1000000000, (0, 0)) :: (real \<times> point) geometry) / 1000000 > (500::real) \<and>
   enforce_area_limit fst snd (Drawn (1000000000, (0, 0))) 500
     = Box (- (sqrt 500 * 500), - (sqrt 500 * 500)) (sqrt 500 * 500, sqrt 500 * 500) \<and>
   \<not> is_square (enforce_area_limit fst snd (Drawn (1000000000, (0, 0))) 500) (0, 0)
       (2 * sqrt 500 * 1000)"
proof -
  have s: "sqrt (500 * 1000000) = sqrt 500 * 1000"
    by (rule sqrt_million)
  have "0 < sqrt (500::real)" by simp
  then have "sqrt 500 * 1000 \<noteq> 2 * sqrt 500 * 1000" by simp
  then show ?thesis
    unfolding enforce_area_limit_def Let_def s by (simp add: buffer_def)
qed



subsection \<open>Paging through the occurrence search\<close>












subsection \<open>Biodiversity indices of a sample\<close>

lemma species_list_filter:
  "species_list (filter has_species occurrences) = species_list occurrences"
  by (induction occurrences)
    (auto simp: species_list_def has_species_def map_filter_simps split: option.splits)

lemma species_list_none:
  "\<forall>occ \<in> set occurrences. \<not> has_species occ \<Longrightarrow> species_list occurrences = []"
  by (induction occurrences) (auto simp: species_list_def has_species_def map_filter_simps)

lemma counter_add_keys: "set (map fst (counter_add c s)) = insert s (set (map fst c))"
  by (induction c s rule: counter_add.induct) auto

lemma counter_add_distinct: "distinct (map fst c) \<Longrightarrow> distinct (map fst (counter_add c s))"
proof (induction c s rule: counter_add.induct)
  case (1 s)
  then show ?case by simp
next
  case (2 k n c s)
  then show ?case
    using counter_add_keys[of c s] by auto
qed

lemma counter_add_sum: "sum_list (map snd (counter_add c s)) = Suc (sum_list (map snd c))"
  by (induction c s rule: counter_add.induct) auto

lemma counter_add_positive:
  "\<forall>n \<in> set (map snd c). 0 < n \<Longrightarrow> \<forall>n \<in> set (map snd (counter_add c s)). 0 < n"
  by (induction c s rule: counter_add.induct) auto

lemma foldl_counter:
  assumes "distinct (map fst c)" and "\<forall>n \<in> set (map snd c). 0 < n"
  shows "distinct (map fst (foldl counter_add c xs)) \<and>
         set (map fst (foldl counter_add c xs)) = set (map fst c) \<union> set xs \<and>
         sum_list (map snd (foldl counter_add c xs)) = sum_list (map snd c) + length xs \<and>
         (\<forall>n \<in> set (map snd (foldl counter_add c xs)). 0 < n)"
  using assms
proof (induction xs arbitrary: c)
  case Nil
  then show ?case by simp
next
  case (Cons x xs)
  have d: "distinct (map fst (counter_add c x))"
    using Cons.prems(1) by (rule counter_add_distinct)
  have p: "\<forall>n \<in> set (map snd (counter_add c x)). 0 < n"
    using Cons.prems(2) by (rule counter_add_positive)
  from Cons.IH[OF d p] show ?case
    unfolding foldl_Cons counter_add_keys counter_add_sum by auto
qed

lemma Counter_props:
  "distinct (map fst (Counter xs))"
  "set (map fst (Counter xs)) = set xs"
  "sum_list (map snd (Counter xs)) = length xs"
  "\<forall>n \<in> set (map snd (Counter xs)). 0 < n"
  using foldl_counter[of "[]" xs] by (simp_all add: Counter_def)

lemma Counter_length: "length (Counter xs) = card (set xs)"
proof -
  have "length (Counter xs) = length (map fst (Counter xs))" by simp
  also have "\<dots> = card (set (map fst (Counter xs)))"
    using Counter_props(1)[of xs] by (simp only: distinct_card)
  finally show ?thesis by (simp only: Counter_props(2))
qed

lemma py_max_nonempty: "xs \<noteq> [] \<Longrightarrow> py_max xs = Inr (Max (set xs))"
proof (cases xs)
  case Nil
  then show "xs \<noteq> [] \<Longrightarrow> ?thesis" by simp
next
  case (Cons x r)
  have "fold max r x = Max (set (x # r))"
    by (rule Max.set_eq_fold[symmetric])
  with Cons show ?thesis by (simp add: py_max_def)
qed

lemma shannon_terms:
  assumes "0 < N" and "\<forall>n \<in> set vals. 0 < n"
  shows "map_err (\<lambda>n. bind_err (py_div (real n) (real N))
                      (\<lambda>p. bind_err (py_log p) (\<lambda>l. Inr (p * l)))) vals
        = Inr (map (\<lambda>n. (real n / real N) * ln (real n / real N)) vals)"
proof (rule map_err_Inr, rule ballI)
  fix n assume "n \<in> set vals"
  with assms(2) have "0 < n" by blast
  with assms(1) have "0 < real n / real N" by simp
  with assms(1) show "bind_err (py_div (real n) (real N))
                    (\<lambda>p. bind_err (py_log p) (\<lambda>l. Inr (p * l)))
                  = Inr ((real n / real N) * ln (real n / real N))"
    by (simp add: py_div_def py_log_def)
qed

lemma simpson_terms:
  assumes "0 < N"
  shows "map_err (\<lambda>n. bind_err (py_div (real n) (real N)) (\<lambda>p. Inr (p ^ 2))) vals
        = Inr (map (\<lambda>n. (real n / real N) ^ 2) vals)"
  using assms by (intro map_err_Inr ballI) (simp add: py_div_def)

lemma evenness_term:
  "(if 1 < S then bind_err (py_log (real S)) (\<lambda>l. py_div sh l) else Inr 0)
     = Inr (if 1 < S then sh / ln (real S) else 0)"
proof (cases "1 < S")
  case True
  then have "0 < ln (real S)" by simp
  with True show ?thesis by (simp add: py_log_def py_div_def)
next
  case False
  then show ?thesis by simp
qed

text \<open>
  With at least one record that carries a species the call does not fail either: \<open>N\<close> is
  the number of such records, the richness \<open>S\<close> the number of distinct species among them.
\<close>

lemma biodiversity_formula:
  assumes "species_list occurrences \<noteq> []"
  shows "get_biodiversity_indices occurrences =
    (let counts = map snd (Counter (species_list occurrences));
         N = real (length (species_list occurrences));
         S = card (set (species_list occurrences));
         shannon = - (\<Sum>n \<leftarrow> counts. (real n / N) * ln (real n / N))
     in Inr \<lparr> species_richness = S,
              shannon_index = shannon,
              simpson_index = 1 - (\<Sum>n \<leftarrow> counts. (real n / N) ^ 2),
              evenness = (if 1 < S then shannon / ln (real S) else 0),
              berger_parker_dominance = real (Max (set counts)) / N \<rparr>)"
proof -
  let ?sp = "species_list occurrences"
  define vals where "vals = map snd (Counter ?sp)"
  define N where "N = sum_list vals"
  have N: "N = length ?sp" unfolding N_def vals_def by (rule Counter_props(3))
  with assms have Npos: "0 < N" by simp
  have pos: "\<forall>n \<in> set vals. 0 < n" unfolding vals_def by (rule Counter_props(4))
  have S: "length (Counter ?sp) = card (set ?sp)" by (rule Counter_length)
  have ne: "vals \<noteq> []"
    using Npos unfolding N_def by auto
  have mx: "py_max vals = Inr (Max (set vals))"
    using ne by (rule py_max_nonempty)
  have "get_biodiversity_indices occurrences =
      Inr \<lparr> species_richness = length (Counter ?sp),
            shannon_index = - (\<Sum>n \<leftarrow> vals. (real n / real N) * ln (real n / real N)),
            simpson_index = 1 - (\<Sum>n \<leftarrow> vals. (real n / real N) ^ 2),
            evenness = (if 1 < length (Counter ?sp)
                        then - (\<Sum>n \<leftarrow> vals. (real n / real N) * ln (real n / real N))
                               / ln (real (length (Counter ?sp)))
                        else 0),
            berger_parker_dominance = real (Max (set vals)) / real N \<rparr>"
    using assms Npos
    unfolding get_biodiversity_indices_def Let_def vals_def[symmetric] N_def[symmetric]
      shannon_terms[OF Npos pos] simpson_terms[OF Npos] bind_err_simps evenness_term mx
    by (simp add: py_div_def)
  then show ?thesis
    unfolding Let_def S N vals_def by simp
qed

text \<open>
  C6. The indices are computed from the records that carry a species only: the result for a
  sample is the result for its records with a species, and the richness is the number of
  distinct species of those records, so that a record without a species contributes to
  nothing. The call never fails, and for every sample without a record that carries a
  species, the empty sample included, the result is the all-zero indices.
\<close>

theorem biodiversity_species_only:
  "get_biodiversity_indices occurrences
     = get_biodiversity_indices (filter has_species occurrences) \<and>
   (\<exists>r. get_biodiversity_indices occurrences = Inr r \<and>
        species_richness r = card (set (species_list occurrences))) \<and>
   ((\<forall>occ \<in> set occurrences. \<not> has_species occ) \<longrightarrow>
      get_biodiversity_indices occurrences = Inr zero_indices) \<and>
   get_biodiversity_indices [] = Inr zero_indices"
proof -
  have a: "get_biodiversity_indices occurrences
             = get_biodiversity_indices (filter has_species occurrences)"
    unfolding get_biodiversity_indices_def species_list_filter ..
  have b: "get_biodiversity_indices occurrences = Inr zero_indices"
    if "\<forall>occ \<in> set occurrences. \<not> has_species occ"
    using species_list_none[OF that] by (simp add: get_biodiversity_indices_def)
  have c: "get_biodiversity_indices [] = Inr zero_indices"
    by (simp add: get_biodiversity_indices_def species_list_def map_filter_simps)
  have d: "\<exists>r. get_biodiversity_indices occurrences = Inr r \<and>
             species_richness r = card (set (species_list occurrences))"
  proof (cases "species_list occurrences = []")
    case True
    then show ?thesis
      by (simp add: get_biodiversity_indices_def zero_indices_def)
  next
    case False
    from biodiversity_formula[OF False] show ?thesis
      by (simp add: Let_def)
  qed
  from a b c d show ?thesis by blast
qed

text \<open>
  Two records with a key and a country but no species: all indices are 0. Three records
  with the species A, A and B and one record without a species: the richness is 2.
\<close>

theorem biodiversity_species_only_witness:
  "\<not> has_species [(''key'', ''1''), (''country'', ''DE'')] \<and>
   get_biodiversity_indices
     [[(''key'', ''1''), (''country'', ''DE'')], [(''key'', ''2''), (''country'', ''DE'')]]
     = Inr zero_indices \<and>
   species_richness zero_indices = 0 \<and> shannon_index zero_indices = 0 \<and>
   simpson_index zero_indices = 0 \<and> evenness zero_indices = 0 \<and>
   berger_parker_dominance zero_indices = 0 \<and>
   (\<exists>r. get_biodiversity_indices
          [[(''species'', ''A'')], [(''key'', ''3'')], [(''species'', ''A'')], [(''species'', ''B'')]]
            = Inr r \<and>
        species_richness r = 2)"
proof -
  let ?occs = "[[(''key'', ''1''), (''country'', ''DE'')],
                [(''key'', ''2''), (''country'', ''DE'')]] :: occurrence list"
  let ?aab = "[[(''species'', ''A'')], [(''key'', ''3'')], [(''species'', ''A'')],
               [(''species'', ''B'')]] :: occurrence list"
  have none: "\<forall>occ \<in> set ?occs. \<not> has_species occ"
    by (simp add: has_species_def)
  with biodiversity_species_only[of ?occs]
  have zero: "get_biodiversity_indices ?occs = Inr zero_indices" by blast
  have "species_list ?aab = [''A'', ''A'', ''B'']"
    by (simp add: species_list_def map_filter_simps)
  then have card: "card (set (species_list ?aab)) = 2" by simp
  from biodiversity_species_only[of ?aab]
  have "\<exists>r. get_biodiversity_indices ?aab = Inr r \<and>
          species_richness r = card (set (species_list ?aab))"
    by blast
  then have two: "\<exists>r. get_biodiversity_indices ?aab = Inr r \<and> species_richness r = 2"
    unfolding card .
  have fields: "species_richness zero_indices = 0 \<and> shannon_index zero_indices = 0 \<and>
      simpson_index zero_indices = 0 \<and> evenness zero_indices = 0 \<and>
      berger_parker_dominance zero_indices = 0"
    by (simp add: zero_indices_def)
  have lacks: "\<not> has_species [(''key'', ''1''), (''country'', ''DE'')]"
    by (simp add: has_species_def)
  from lacks zero fields two show ?thesis by blast
qed

end
